theory Spec2Isabelle
  imports Complex_Main
begin

section \<open>Expression model (src/formal/expressions.py)\<close>

text \<open>
  Every \<^verbatim>\<open>raise ValueError(...)\<close> of the modelled code is a value of \<open>py_error\<close>;
  the constructor names say which check raised it.  A function that may raise returns
  \<open>py_error + 'a\<close>, with \<open>Inl\<close> for the exception.
\<close>

datatype py_error =
    InvalidOperator string
  | InvalidPredicate string
  | WrongArgCount string nat nat
  | UnknownPredicate string
  | UnknownRule string

text \<open>
  \<^verbatim>\<open>Number.value\<close> is an int or a Fraction (a float is converted to a Fraction) and
  numbers are compared by value, so the value is a rational.  The name of a variable is
  inspected character by character (\<^verbatim>\<open>str.isupper\<close>), and a Python string is a
  sequence of Unicode code points: a name is the list of its code points.  Predicates,
  operators and rule names are only compared with each other and with ASCII constants;
  they are strings.  The three subclasses of \<^verbatim>\<open>Expression\<close> are the three
  constructors; the datatype itself carries no validation, the checks of
  \<^verbatim>\<open>__init__\<close> are the functions \<open>mk_Operation\<close> and \<open>mk_Fact\<close> below.
\<close>

type_synonym variable_name = "nat list"

datatype expr =
    Number rat
  | Variable variable_name
  | Operation expr string expr

text \<open>The code points of a name written in ASCII.\<close>

definition name_of :: "string \<Rightarrow> variable_name" where
  "name_of s = map of_char s"

definition VALID_OPERATORS :: "string list" where
  "VALID_OPERATORS = [''+'', ''-'', ''*'', ''/'', ''^'', ''**'']"

definition mk_Operation :: "expr \<Rightarrow> string \<Rightarrow> expr \<Rightarrow> py_error + expr" where
  "mk_Operation left operator right =
     (if operator \<notin> set VALID_OPERATORS then Inl (InvalidOperator operator)
      else Inr (Operation left operator right))"

record fact =
  predicate :: string
  arguments :: "expr list"

definition VALID_PREDICATES :: "string list" where
  "VALID_PREDICATES =
     [''eq'', ''gt'', ''lt'', ''gte'', ''lte'',
      ''even'', ''odd'', ''prime'', ''positive'', ''negative'',
      ''divides'', ''multiple'']"

definition get_expected_arg_count :: "string \<Rightarrow> py_error + nat" where
  "get_expected_arg_count p =
     (if p \<in> set [''eq'', ''gt'', ''lt'', ''gte'', ''lte'', ''divides'', ''multiple''] then Inr 2
      else if p \<in> set [''even'', ''odd'', ''prime'', ''positive'', ''negative''] then Inr 1
      else Inl (UnknownPredicate p))"

definition mk_Fact :: "string \<Rightarrow> expr list \<Rightarrow> py_error + fact" where
  "mk_Fact p args =
     (if p \<notin> set VALID_PREDICATES then Inl (InvalidPredicate p)
      else (case get_expected_arg_count p of
              Inl e \<Rightarrow> Inl e
            | Inr expected_args \<Rightarrow>
                if length args \<noteq> expected_args
                then Inl (WrongArgCount p expected_args (length args))
                else Inr \<lparr>predicate = p, arguments = args\<rparr>))"

text \<open>The field \<^verbatim>\<open>premises\<close> is \<open>rule_premises\<close> here: \<open>premises\<close> is a keyword of Isabelle.\<close>

record rule =
  rule_premises :: "fact list"
  conclusion :: fact
  name :: string

section \<open>What the Python runtime supplies\<close>

text \<open>
  Two things that the code relies on are not in the repository, and not fixed by it.

  \<^item> The case of a character.  \<^verbatim>\<open>str.isupper\<close> follows the Unicode database: which
    code points are upper-case, lower-case and title-case.

  \<^item> The order in which a \<^verbatim>\<open>set\<close> is iterated.  It depends on the hashes of the
    elements and on how the set was built; \<^verbatim>\<open>s.add(x)\<close>, \<^verbatim>\<open>s - {x}\<close> and
    \<^verbatim>\<open>s.copy()\<close> each give a set with an order of its own.

  Both are parameters of the model: a runtime \<open>py\<close> holds the three character classes, and
  a set implementation over a type \<open>'s\<close> of set values of which nothing is known beyond the
  four operations.  Membership and length are read off the iteration.  A theorem about
  every runtime (every valid one, where the sets matter) is a theorem about the runtime
  that the code runs on.
\<close>

record 's runtime =
  uppercase :: "nat \<Rightarrow> bool"
  lowercase :: "nat \<Rightarrow> bool"
  titlecase :: "nat \<Rightarrow> bool"
  iterate :: "'s \<Rightarrow> fact list"
  set_add :: "fact \<Rightarrow> 's \<Rightarrow> 's"
  set_minus :: "'s \<Rightarrow> fact \<Rightarrow> 's"
  set_copy :: "'s \<Rightarrow> 's"

text \<open>
  The operations are those of a set: an iteration visits every element once, \<^verbatim>\<open>add\<close>
  adds the element, \<^verbatim>\<open>s - {x}\<close> removes it, a copy has the same elements.
\<close>

definition valid_sets :: "'s runtime \<Rightarrow> bool" where
  "valid_sets py =
     ((\<forall>s. distinct (iterate py s)) \<and>
      (\<forall>s x. set (iterate py (set_add py x s)) = insert x (set (iterate py s))) \<and>
      (\<forall>s x. set (iterate py (set_minus py s x)) = set (iterate py s) - {x}) \<and>
      (\<forall>s. set (iterate py (set_copy py s)) = set (iterate py s)))"

text \<open>
  \<^verbatim>\<open>str.isupper\<close>: no character is lower-case or title-case and at least one is
  upper-case; \<^verbatim>\<open>str.islower\<close> is the mirror image.  The code does not call
  \<^verbatim>\<open>str.islower\<close>; it is here to say "a lower-case name".
\<close>

definition isupper :: "'s runtime \<Rightarrow> variable_name \<Rightarrow> bool" where
  "isupper py s =
     (list_ex (uppercase py) s \<and> \<not> list_ex (\<lambda>c. lowercase py c \<or> titlecase py c) s)"

definition islower :: "'s runtime \<Rightarrow> variable_name \<Rightarrow> bool" where
  "islower py s =
     (list_ex (lowercase py) s \<and> \<not> list_ex (\<lambda>c. uppercase py c \<or> titlecase py c) s)"

text \<open>\<^verbatim>\<open>name.startswith('_')\<close>; the underscore is code point 95.\<close>

definition startswith_underscore :: "variable_name \<Rightarrow> bool" where
  "startswith_underscore s = (case s of [] \<Rightarrow> False | c # _ \<Rightarrow> c = 95)"

section \<open>Substitutions and pattern matching (src/reasoning/pattern_matching.py)\<close>

text \<open>
  \<^verbatim>\<open>Substitution.mappings\<close> is a dict from variable names to expressions.  It is an
  association list in insertion order with no key twice; \<open>map_of\<close> is the lookup.
\<close>

type_synonym substitution = "(variable_name \<times> expr) list"

definition add_mapping :: "substitution \<Rightarrow> variable_name \<Rightarrow> expr \<Rightarrow> bool \<times> substitution" where
  "add_mapping m v e =
     (case map_of m v of
        Some e' \<Rightarrow> (e' = e, m)
      | None \<Rightarrow> (True, m @ [(v, e)]))"

fun apply_to_expression :: "substitution \<Rightarrow> expr \<Rightarrow> py_error + expr" where
  "apply_to_expression m (Variable n) =
     (case map_of m n of Some e \<Rightarrow> Inr e | None \<Rightarrow> Inr (Variable n))"
| "apply_to_expression m (Number v) = Inr (Number v)"
| "apply_to_expression m (Operation l operator r) =
     (case apply_to_expression m l of
        Inl e \<Rightarrow> Inl e
      | Inr new_left \<Rightarrow>
          (case apply_to_expression m r of
             Inl e \<Rightarrow> Inl e
           | Inr new_right \<Rightarrow> mk_Operation new_left operator new_right))"

text \<open>The list comprehension of \<^verbatim>\<open>apply_to_fact\<close>: the first exception ends it.\<close>

fun apply_to_arguments :: "substitution \<Rightarrow> expr list \<Rightarrow> py_error + expr list" where
  "apply_to_arguments m [] = Inr []"
| "apply_to_arguments m (a # as) =
     (case apply_to_expression m a of
        Inl e \<Rightarrow> Inl e
      | Inr a' \<Rightarrow>
          (case apply_to_arguments m as of
             Inl e \<Rightarrow> Inl e
           | Inr as' \<Rightarrow> Inr (a' # as')))"

definition apply_to_fact :: "substitution \<Rightarrow> fact \<Rightarrow> py_error + fact" where
  "apply_to_fact m f =
     (case apply_to_arguments m (arguments f) of
        Inl e \<Rightarrow> Inl e
      | Inr new_arguments \<Rightarrow> mk_Fact (predicate f) new_arguments)"

fun merge_items :: "substitution \<Rightarrow> (variable_name \<times> expr) list \<Rightarrow> substitution option" where
  "merge_items result [] = Some result"
| "merge_items result ((var, e) # rest) =
     (case add_mapping result var e of
        (False, _) \<Rightarrow> None
      | (True, result') \<Rightarrow> merge_items result' rest)"

definition merge :: "substitution \<Rightarrow> substitution \<Rightarrow> substitution option" where
  "merge m other = merge_items m other"

text \<open>The test of line 111: \<^verbatim>\<open>pattern.name.isupper() or pattern.name.startswith('_')\<close>.\<close>

definition is_pattern_variable :: "'s runtime \<Rightarrow> variable_name \<Rightarrow> bool" where
  "is_pattern_variable py n = (isupper py n \<or> startswith_underscore n)"

fun match_expression_recursive ::
  "'s runtime \<Rightarrow> expr \<Rightarrow> expr \<Rightarrow> substitution \<Rightarrow> substitution option" where
  "match_expression_recursive py (Variable n) target sub =
     (if is_pattern_variable py n then
        (case map_of sub n of
           Some bound \<Rightarrow> if bound = target then Some sub else None
         | None \<Rightarrow> Some (sub @ [(n, target)]))
      else
        (case target of
           Variable tn \<Rightarrow> if n = tn then Some sub else None
         | _ \<Rightarrow> None))"
| "match_expression_recursive py (Number v) target sub =
     (case target of
        Number w \<Rightarrow> if v = w then Some sub else None
      | _ \<Rightarrow> None)"
| "match_expression_recursive py (Operation l operator r) target sub =
     (case target of
        Operation tleft toperator tright \<Rightarrow>
          if operator \<noteq> toperator then None
          else (case match_expression_recursive py l tleft sub of
                  None \<Rightarrow> None
                | Some left_match \<Rightarrow> match_expression_recursive py r tright left_match)
      | _ \<Rightarrow> None)"

definition match_expression :: "'s runtime \<Rightarrow> expr \<Rightarrow> expr \<Rightarrow> substitution option" where
  "match_expression py pattern target = match_expression_recursive py pattern target []"

fun match_arguments ::
  "'s runtime \<Rightarrow> (expr \<times> expr) list \<Rightarrow> substitution \<Rightarrow> substitution option" where
  "match_arguments py [] sub = Some sub"
| "match_arguments py ((pattern_arg, target_arg) # rest) sub =
     (case match_expression py pattern_arg target_arg of
        None \<Rightarrow> None
      | Some arg_match \<Rightarrow>
          (case merge sub arg_match of
             None \<Rightarrow> None
           | Some merged \<Rightarrow> match_arguments py rest merged))"

definition match_fact :: "'s runtime \<Rightarrow> fact \<Rightarrow> fact \<Rightarrow> substitution option" where
  "match_fact py pattern target =
     (if predicate pattern \<noteq> predicate target then None
      else if length (arguments pattern) \<noteq> length (arguments target) then None
      else match_arguments py (zip (arguments pattern) (arguments target)) [])"

text \<open>
  \<^verbatim>\<open>targets\<close> is a set value of the runtime: \<^verbatim>\<open>for target in targets\<close> runs over
  \<open>iterate py targets\<close>, and \<^verbatim>\<open>targets - {target}\<close> is the set value
  \<open>set_minus py targets target\<close>, iterated in its own order by the recursive call.  The
  two \<^verbatim>\<open>for\<close> loops that append to a result list are \<open>concat\<close> over \<open>map\<close>.
\<close>

fun match_facts_list :: "'s runtime \<Rightarrow> fact list \<Rightarrow> 's \<Rightarrow> substitution list" where
  "match_facts_list py [] targets = [[]]"
| "match_facts_list py [p] targets =
     concat (map (\<lambda>target. case match_fact py p target of
                              None \<Rightarrow> []
                            | Some m \<Rightarrow> [m]) (iterate py targets))"
| "match_facts_list py (first_pattern # remaining_patterns) targets =
     concat (map (\<lambda>target.
        case match_fact py first_pattern target of
          None \<Rightarrow> []
        | Some first_match \<Rightarrow>
            concat (map (\<lambda>remaining_match.
                      case merge first_match remaining_match of
                        None \<Rightarrow> []
                      | Some merged \<Rightarrow> [merged])
                    (match_facts_list py remaining_patterns (set_minus py targets target))))
        (iterate py targets))"

definition find_rule_matches :: "'s runtime \<Rightarrow> fact list \<Rightarrow> 's \<Rightarrow> substitution list" where
  "find_rule_matches py patterns available_facts =
     match_facts_list py patterns available_facts"

fun apply_rule_loop ::
  "'s runtime \<Rightarrow> fact \<Rightarrow> 's \<Rightarrow> substitution list \<Rightarrow> fact list \<Rightarrow> py_error + fact list" where
  "apply_rule_loop py concl available_facts [] new_facts = Inr new_facts"
| "apply_rule_loop py concl available_facts (s # ss) new_facts =
     (case apply_to_fact s concl of
        Inl e \<Rightarrow> Inl e
      | Inr new_fact \<Rightarrow>
          apply_rule_loop py concl available_facts ss
            (if new_fact \<notin> set (iterate py available_facts) then new_facts @ [new_fact]
             else new_facts))"

definition apply_rule :: "'s runtime \<Rightarrow> rule \<Rightarrow> 's \<Rightarrow> py_error + fact list" where
  "apply_rule py r available_facts =
     apply_rule_loop py (conclusion r) available_facts
       (find_rule_matches py (rule_premises r) available_facts) []"

definition can_apply_rule :: "'s runtime \<Rightarrow> rule \<Rightarrow> 's \<Rightarrow> bool" where
  "can_apply_rule py r available_facts =
     (length (find_rule_matches py (rule_premises r) available_facts) > 0)"

section \<open>Forward chaining (src/reasoning/proof_engine.py)\<close>

record ProofStep =
  rule_applied :: rule
  premises_used :: "fact list"
  derived_fact :: fact
  step_number :: nat

text \<open>
  \<^verbatim>\<open>error_message\<close> is \<open>None\<close>, the fact-limit text (which quotes \<^verbatim>\<open>max_facts\<close>),
  or the text of a caught exception.  \<^verbatim>\<open>final_facts\<close> is the working set, a set value
  of the runtime.  \<^verbatim>\<open>time_elapsed\<close> is wall-clock time and is left out of the result.
\<close>

datatype message = TooManyFacts int | ExceptionText py_error

record 's ProofResult =
  success :: bool
  goal_achieved :: bool
  steps :: "ProofStep list"
  final_facts :: 's
  iterations_used :: nat
  error_message :: "message option"

record statistics =
  iterations :: nat
  rules_applied :: nat
  facts_derived :: nat
  rule_applications :: "(string \<times> nat) list"

text \<open>
  The attributes of a \<^verbatim>\<open>ForwardChainer\<close>: the two limits and \<^verbatim>\<open>self.stats\<close>, as
  the last call left them.  The rule applicator has no state.
\<close>

record ForwardChainer =
  max_iterations :: int
  max_facts :: int
  stats :: statistics

definition reset_statistics :: statistics where
  "reset_statistics =
     \<lparr>iterations = 0, rules_applied = 0, facts_derived = 0, rule_applications = []\<rparr>"

text \<open>
  What changes while \<^verbatim>\<open>prove\<close> runs: its local variables \<^verbatim>\<open>current_facts\<close> and
  \<^verbatim>\<open>proof_steps\<close>, and \<^verbatim>\<open>self.stats\<close> (here \<open>call_stats\<close>), which line 89
  resets before anything else.  The list \<^verbatim>\<open>new_facts_this_iteration\<close> is written and
  never read; it is left out.
\<close>

record 's chain_state =
  current_facts :: 's
  proof_steps :: "ProofStep list"
  call_stats :: statistics

text \<open>The loop over \<^verbatim>\<open>rule.premises\<close> in \<^verbatim>\<open>_create_proof_step\<close>.\<close>

fun premises_used_loop ::
  "'s runtime \<Rightarrow> substitution \<Rightarrow> 's \<Rightarrow> fact list \<Rightarrow> py_error + fact list" where
  "premises_used_loop py substitution facts [] = Inr []"
| "premises_used_loop py substitution facts (premise_pattern # rest) =
     (case apply_to_fact substitution premise_pattern of
        Inl e \<Rightarrow> Inl e
      | Inr concrete_premise \<Rightarrow>
          (case premises_used_loop py substitution facts rest of
             Inl e \<Rightarrow> Inl e
           | Inr used \<Rightarrow>
               Inr ((if concrete_premise \<in> set (iterate py facts) then concrete_premise
                     else premise_pattern) # used)))"

definition create_proof_step ::
  "'s runtime \<Rightarrow> rule \<Rightarrow> 's \<Rightarrow> fact \<Rightarrow> nat \<Rightarrow> py_error + ProofStep" where
  "create_proof_step py r facts derived n =
     (case find_rule_matches py (rule_premises r) facts of
        [] \<Rightarrow>
          Inr \<lparr>rule_applied = r, premises_used = rule_premises r,
               derived_fact = derived, step_number = n\<rparr>
      | substitution # _ \<Rightarrow>
          (case premises_used_loop py substitution facts (rule_premises r) of
             Inl e \<Rightarrow> Inl e
           | Inr used \<Rightarrow>
               Inr \<lparr>rule_applied = r, premises_used = used,
                    derived_fact = derived, step_number = n\<rparr>))"

text \<open>
  \<^verbatim>\<open>prove\<close> leaves its loops by \<^verbatim>\<open>return\<close>, by \<^verbatim>\<open>break\<close>, by running out of
  \<^verbatim>\<open>range(self.max_iterations)\<close> or through the \<^verbatim>\<open>except\<close> clause.  A loop body
  yields \<open>Continue\<close> with the new state, or \<open>Return\<close> with the result and the name of
  the exit taken; the names are the final states of the search (GoalAchieved, Stuck,
  IterationLimit, FactLimit, Error).
\<close>

datatype outcome = GoalAchieved | Stuck | IterationLimit | FactLimit | Error

datatype 's flow = Continue "'s chain_state" | Return outcome "'s ProofResult"

text \<open>The \<^verbatim>\<open>except Exception as e\<close> clause: what was accumulated is kept.\<close>

definition error_result :: "py_error \<Rightarrow> 's chain_state \<Rightarrow> 's ProofResult" where
  "error_result e st =
     \<lparr>success = False, goal_achieved = False, steps = proof_steps st,
      final_facts = current_facts st, iterations_used = iterations (call_stats st),
      error_message = Some (ExceptionText e)\<rparr>"

definition count_application :: "string \<Rightarrow> (string \<times> nat) list \<Rightarrow> (string \<times> nat) list" where
  "count_application rule_name apps =
     (case map_of apps rule_name of
        None \<Rightarrow> apps @ [(rule_name, 1)]
      | Some c \<Rightarrow> map (\<lambda>(k, v). if k = rule_name then (k, c + 1) else (k, v)) apps)"

text \<open>Lines 131 to 142: the step is appended, the fact is added to the set, the counters move.\<close>

definition record_step ::
  "'s runtime \<Rightarrow> rule \<Rightarrow> ProofStep \<Rightarrow> fact \<Rightarrow> 's chain_state \<Rightarrow> 's chain_state" where
  "record_step py r step new_fact st =
     \<lparr>current_facts = set_add py new_fact (current_facts st),
      proof_steps = proof_steps st @ [step],
      call_stats =
        (call_stats st)\<lparr>facts_derived := facts_derived (call_stats st) + 1,
                         rules_applied := rules_applied (call_stats st) + 1,
                         rule_applications :=
                           count_application (name r) (rule_applications (call_stats st))\<rparr>\<rparr>"

text \<open>The loop \<^verbatim>\<open>for new_fact in new_facts\<close> (lines 125 to 167).\<close>

fun new_facts_loop ::
  "'s runtime \<Rightarrow> ForwardChainer \<Rightarrow> fact \<Rightarrow> rule \<Rightarrow> nat \<Rightarrow> fact list \<Rightarrow> 's chain_state
     \<Rightarrow> 's flow" where
  "new_facts_loop py fc goal r iteration [] st = Continue st"
| "new_facts_loop py fc goal r iteration (new_fact # rest) st =
     (if new_fact \<notin> set (iterate py (current_facts st)) then
        (case create_proof_step py r (current_facts st) new_fact (length (proof_steps st) + 1) of
           Inl e \<Rightarrow> Return Error (error_result e st)
         | Inr step \<Rightarrow>
             (let st' = record_step py r step new_fact st in
              if new_fact = goal then
                Return GoalAchieved
                  \<lparr>success = True, goal_achieved = True, steps = proof_steps st',
                   final_facts = current_facts st', iterations_used = iteration + 1,
                   error_message = None\<rparr>
              else if int (length (iterate py (current_facts st'))) > max_facts fc then
                Return FactLimit
                  \<lparr>success = False, goal_achieved = False, steps = proof_steps st',
                   final_facts = current_facts st', iterations_used = iteration + 1,
                   error_message = Some (TooManyFacts (max_facts fc))\<rparr>
              else new_facts_loop py fc goal r iteration rest st'))
      else new_facts_loop py fc goal r iteration rest st)"

text \<open>The loop \<^verbatim>\<open>for rule in rules\<close> (lines 117 to 167).\<close>

fun rules_loop ::
  "'s runtime \<Rightarrow> ForwardChainer \<Rightarrow> fact \<Rightarrow> nat \<Rightarrow> rule list \<Rightarrow> 's chain_state \<Rightarrow> 's flow" where
  "rules_loop py fc goal iteration [] st = Continue st"
| "rules_loop py fc goal iteration (r # rs) st =
     (if \<not> can_apply_rule py r (current_facts st) then rules_loop py fc goal iteration rs st
      else
        (case apply_rule py r (current_facts st) of
           Inl e \<Rightarrow> Return Error (error_result e st)
         | Inr new_facts \<Rightarrow>
             (case new_facts_loop py fc goal r iteration new_facts st of
                Return oc res \<Rightarrow> Return oc res
              | Continue st' \<Rightarrow> rules_loop py fc goal iteration rs st')))"

text \<open>The result built after the main loop (lines 174 to 183).\<close>

definition no_proof_result :: "'s chain_state \<Rightarrow> 's ProofResult" where
  "no_proof_result st =
     \<lparr>success = True, goal_achieved = False, steps = proof_steps st,
      final_facts = current_facts st, iterations_used = iterations (call_stats st),
      error_message = None\<rparr>"

text \<open>
  The loop \<^verbatim>\<open>for iteration in range(self.max_iterations)\<close>: the second argument counts
  the iterations that are left, the third is \<^verbatim>\<open>iteration\<close>.
\<close>

fun main_loop ::
  "'s runtime \<Rightarrow> nat \<Rightarrow> nat \<Rightarrow> ForwardChainer \<Rightarrow> fact \<Rightarrow> rule list \<Rightarrow> 's chain_state
     \<Rightarrow> outcome \<times> 's ProofResult" where
  "main_loop py 0 iteration fc goal rules st = (IterationLimit, no_proof_result st)"
| "main_loop py (Suc left) iteration fc goal rules st =
     (let st1 = st\<lparr>call_stats := (call_stats st)\<lparr>iterations := iteration + 1\<rparr>\<rparr>;
          facts_at_start = length (iterate py (current_facts st1))
      in case rules_loop py fc goal iteration rules st1 of
           Return oc res \<Rightarrow> (oc, res)
         | Continue st2 \<Rightarrow>
             if length (iterate py (current_facts st2)) = facts_at_start
             then (Stuck, no_proof_result st2)
             else main_loop py left (iteration + 1) fc goal rules st2)"

text \<open>
  \<^verbatim>\<open>prove\<close> with the name of the exit it took, and \<^verbatim>\<open>prove\<close> itself.  The call
  starts from fresh statistics, whatever \<open>stats fc\<close> holds, and from a copy of the initial
  set; the range of a number that is not positive is empty.
\<close>

definition prove_outcome ::
  "'s runtime \<Rightarrow> ForwardChainer \<Rightarrow> fact \<Rightarrow> 's \<Rightarrow> rule list \<Rightarrow> outcome \<times> 's ProofResult" where
  "prove_outcome py fc goal initial_facts rules =
     (let st = \<lparr>current_facts = set_copy py initial_facts, proof_steps = [],
                call_stats = reset_statistics\<rparr>
      in if goal \<in> set (iterate py (current_facts st)) then
           (GoalAchieved,
            \<lparr>success = True, goal_achieved = True, steps = [],
             final_facts = current_facts st, iterations_used = 0, error_message = None\<rparr>)
         else main_loop py (nat (max_iterations fc)) 0 fc goal rules st)"

definition prove ::
  "'s runtime \<Rightarrow> ForwardChainer \<Rightarrow> fact \<Rightarrow> 's \<Rightarrow> rule list \<Rightarrow> 's ProofResult" where
  "prove py fc goal initial_facts rules = snd (prove_outcome py fc goal initial_facts rules)"

section \<open>Rule catalog activation (src/reasoning/rules.py)\<close>

text \<open>
  \<^verbatim>\<open>RuleSystem\<close>: the names of the catalog (the keys of \<^verbatim>\<open>math_rules._rules\<close>, as
  \<^verbatim>\<open>list_rule_names\<close> returns them) and the set of active names.  A method that may
  raise returns the exception or \<open>()\<close>, and the state it leaves.
\<close>

record RuleSystem =
  list_rule_names :: "string list"
  active_rules :: "string set"

definition catalog_rule_names :: "string list" where
  "catalog_rule_names =
     [''subtraction_property'', ''division_property'', ''equality_transitivity'',
      ''addition_property'', ''multiplication_property'', ''equality_symmetry'',
      ''even_definition'', ''odd_definition'', ''even_multiplication'',
      ''odd_multiplication'', ''even_addition'', ''odd_addition_even'',
      ''even_odd_addition'', ''even_square'', ''odd_square'',
      ''greater_transitivity'', ''equality_substitution_gt'', ''less_transitivity'',
      ''gte_transitivity'', ''lte_transitivity'', ''gt_lt_relationship'',
      ''divisibility_transitivity'', ''multiple_divides'',
      ''divisibility_multiplication'', ''prime_not_even'']"

definition new_RuleSystem :: RuleSystem where
  "new_RuleSystem =
     \<lparr>list_rule_names = catalog_rule_names, active_rules = set catalog_rule_names\<rparr>"

definition enable_rule :: "string \<Rightarrow> RuleSystem \<Rightarrow> (py_error + unit) \<times> RuleSystem" where
  "enable_rule rule_name rs =
     (if rule_name \<notin> set (list_rule_names rs) then (Inl (UnknownRule rule_name), rs)
      else (Inr (), rs\<lparr>active_rules := insert rule_name (active_rules rs)\<rparr>))"

definition disable_rule :: "string \<Rightarrow> RuleSystem \<Rightarrow> (py_error + unit) \<times> RuleSystem" where
  "disable_rule rule_name rs =
     (Inr (), rs\<lparr>active_rules := active_rules rs - {rule_name}\<rparr>)"

definition is_rule_active :: "string \<Rightarrow> RuleSystem \<Rightarrow> bool" where
  "is_rule_active rule_name rs = (rule_name \<in> active_rules rs)"

section \<open>Well-formed values\<close>

text \<open>
  The values that the constructors of the code accept: an expression all of whose
  operators passed \<open>mk_Operation\<close>, a fact that passed \<open>mk_Fact\<close> over such
  expressions, a rule made of such facts.
\<close>

fun wf_expr :: "expr \<Rightarrow> bool" where
  "wf_expr (Number v) = True"
| "wf_expr (Variable n) = True"
| "wf_expr (Operation l operator r) =
     (operator \<in> set VALID_OPERATORS \<and> wf_expr l \<and> wf_expr r)"

definition wf_fact :: "fact \<Rightarrow> bool" where
  "wf_fact f =
     (mk_Fact (predicate f) (arguments f) = Inr f \<and> list_all wf_expr (arguments f))"

definition wf_rule :: "rule \<Rightarrow> bool" where
  "wf_rule r = (list_all wf_fact (rule_premises r) \<and> wf_fact (conclusion r))"

definition wf_substitution :: "substitution \<Rightarrow> bool" where
  "wf_substitution m = list_all (\<lambda>(v, e). wf_expr e) m"

section \<open>Runtimes and values used in the examples\<close>

text \<open>
  A runtime for the examples.  Its character classes are those of Unicode on the ASCII
  range, where the names of the examples lie.  Its sets are lists that
  are iterated in insertion order: \<^verbatim>\<open>add\<close> puts a new element last, \<^verbatim>\<open>s - {x}\<close>
  keeps the order of what remains.  (A list with a repeated element stands for the set
  of its elements; the iteration visits each element once.)  This is one behaviour that
  a Python set may show, not the only one.
\<close>

definition insertion_runtime :: "fact list runtime" where
  "insertion_runtime =
     \<lparr>uppercase = (\<lambda>c. 65 \<le> c \<and> c \<le> 90),
      lowercase = (\<lambda>c. 97 \<le> c \<and> c \<le> 122),
      titlecase = (\<lambda>c. False),
      iterate = remdups,
      set_add = (\<lambda>x s. if x \<in> set s then s else s @ [x]),
      set_minus = (\<lambda>s x. removeAll x s),
      set_copy = (\<lambda>s. s)\<rparr>"


text \<open>
  The two rules and the initial fact of \<^verbatim>\<open>test_multi_step_proof\<close>
  (src/tests/test_proof_engine.py) with a few more facts, built directly, and chainers
  with the default limits and with small ones.
\<close>

definition fact_eq_a_b :: fact where
  "fact_eq_a_b =
     \<lparr>predicate = ''eq'', arguments = [Variable (name_of ''a''), Variable (name_of ''b'')]\<rparr>"

definition fact_eq_c_d :: fact where
  "fact_eq_c_d =
     \<lparr>predicate = ''eq'', arguments = [Variable (name_of ''c''), Variable (name_of ''d'')]\<rparr>"

definition fact_gt_a_0 :: fact where
  "fact_gt_a_0 = \<lparr>predicate = ''gt'', arguments = [Variable (name_of ''a''), Number 0]\<rparr>"

definition fact_gt_c_0 :: fact where
  "fact_gt_c_0 = \<lparr>predicate = ''gt'', arguments = [Variable (name_of ''c''), Number 0]\<rparr>"

definition fact_positive_a :: fact where
  "fact_positive_a = \<lparr>predicate = ''positive'', arguments = [Variable (name_of ''a'')]\<rparr>"

definition fact_positive_z :: fact where
  "fact_positive_z = \<lparr>predicate = ''positive'', arguments = [Variable (name_of ''z'')]\<rparr>"

definition rule1 :: rule where
  "rule1 =
     \<lparr>rule_premises =
        [\<lparr>predicate = ''eq'', arguments = [Variable (name_of ''X''), Variable (name_of ''Y'')]\<rparr>],
      conclusion = \<lparr>predicate = ''gt'', arguments = [Variable (name_of ''X''), Number 0]\<rparr>,
      name = ''rule1''\<rparr>"

definition rule2 :: rule where
  "rule2 =
     \<lparr>rule_premises =
        [\<lparr>predicate = ''gt'', arguments = [Variable (name_of ''X''), Number 0]\<rparr>],
      conclusion = \<lparr>predicate = ''positive'', arguments = [Variable (name_of ''X'')]\<rparr>,
      name = ''rule2''\<rparr>"

definition default_chainer :: ForwardChainer where
  "default_chainer = \<lparr>max_iterations = 100, max_facts = 1000, stats = reset_statistics\<rparr>"

definition tight_chainer :: ForwardChainer where
  "tight_chainer = \<lparr>max_iterations = 100, max_facts = 1, stats = reset_statistics\<rparr>"

definition single_iteration_chainer :: ForwardChainer where
  "single_iteration_chainer =
     \<lparr>max_iterations = 1, max_facts = 1000, stats = reset_statistics\<rparr>"


section \<open>The enumeration of assignments, as the specification words it\<close>





section \<open>Invariants of the search loops\<close>

text \<open>The flags and the message that each exit of \<open>prove\<close> puts into its result.\<close>

definition outcome_flags :: "ForwardChainer \<Rightarrow> outcome \<Rightarrow> 's ProofResult \<Rightarrow> bool" where
  "outcome_flags fc oc res =
     (case oc of
        GoalAchieved \<Rightarrow> success res \<and> goal_achieved res \<and> error_message res = None
      | Stuck \<Rightarrow> success res \<and> \<not> goal_achieved res \<and> error_message res = None
      | IterationLimit \<Rightarrow> success res \<and> \<not> goal_achieved res \<and> error_message res = None
      | FactLimit \<Rightarrow> \<not> success res \<and> \<not> goal_achieved res \<and>
                     error_message res = Some (TooManyFacts (max_facts fc))
      | Error \<Rightarrow> \<not> success res \<and> \<not> goal_achieved res \<and>
                 (case error_message res of Some (ExceptionText e) \<Rightarrow> True | _ \<Rightarrow> False))"

text \<open>
  What a loop body of iteration \<open>n - 1\<close> keeps, on every runtime: the iteration counter
  is \<open>n\<close>, a result reports \<open>n\<close> iterations and has the flags of its exit, and a loop
  body never leaves through the exits Stuck and IterationLimit.
\<close>

definition flow_inv :: "ForwardChainer \<Rightarrow> nat \<Rightarrow> 's flow \<Rightarrow> bool" where
  "flow_inv fc n fl =
     (case fl of
        Continue st \<Rightarrow> iterations (call_stats st) = n
      | Return oc res \<Rightarrow>
          iterations_used res = n \<and> outcome_flags fc oc res \<and>
          oc \<noteq> Stuck \<and> oc \<noteq> IterationLimit)"

text \<open>
  What holds of the working set on a valid runtime, for the initial set of the call: its
  elements are the initial facts and the derived facts of the steps taken, and it has not
  passed the larger of the initial size and \<open>max_facts\<close>; the set of a result may be one
  fact beyond that.
\<close>

definition fact_bound :: "'s runtime \<Rightarrow> ForwardChainer \<Rightarrow> 's \<Rightarrow> int" where
  "fact_bound py fc initial_facts =
     max (int (length (iterate py initial_facts))) (max_facts fc)"

definition facts_inv ::
  "'s runtime \<Rightarrow> ForwardChainer \<Rightarrow> 's \<Rightarrow> 's \<Rightarrow> ProofStep list \<Rightarrow> int \<Rightarrow> bool" where
  "facts_inv py fc initial_facts facts taken slack =
     (set (iterate py facts) = set (iterate py initial_facts) \<union> derived_fact ` set taken \<and>
      int (length (iterate py facts)) \<le> fact_bound py fc initial_facts + slack)"

definition flow_facts_inv :: "'s runtime \<Rightarrow> ForwardChainer \<Rightarrow> 's \<Rightarrow> 's flow \<Rightarrow> bool" where
  "flow_facts_inv py fc initial_facts fl =
     (case fl of
        Continue st \<Rightarrow> facts_inv py fc initial_facts (current_facts st) (proof_steps st) 0
      | Return oc res \<Rightarrow> facts_inv py fc initial_facts (final_facts res) (steps res) 1)"



text \<open>
  A loop body over well-formed values goes on with well-formed facts or returns, but not
  through the exception handler.
\<close>

definition flow_wf :: "'s runtime \<Rightarrow> 's flow \<Rightarrow> bool" where
  "flow_wf py fl =
     (case fl of
        Continue st \<Rightarrow> list_all wf_fact (iterate py (current_facts st))
      | Return oc res \<Rightarrow> oc \<noteq> Error)"

text \<open>The working set that a loop body leaves: that of the state, or that of the result.\<close>

definition flow_facts :: "'s flow \<Rightarrow> 's" where
  "flow_facts fl =
     (case fl of Continue st \<Rightarrow> current_facts st | Return oc res \<Rightarrow> final_facts res)"

section \<open>Two runtimes that iterate alike\<close>





section \<open>Valid runtimes\<close>

lemma valid_sets_distinct: "valid_sets py \<Longrightarrow> distinct (iterate py s)"
  by (simp add: valid_sets_def)

lemma valid_sets_add:
  "valid_sets py \<Longrightarrow> set (iterate py (set_add py x s)) = insert x (set (iterate py s))"
  by (simp add: valid_sets_def)

lemma valid_sets_minus:
  "valid_sets py \<Longrightarrow> set (iterate py (set_minus py s x)) = set (iterate py s) - {x}"
  by (simp add: valid_sets_def)

lemma valid_sets_copy:
  "valid_sets py \<Longrightarrow> set (iterate py (set_copy py s)) = set (iterate py s)"
  by (simp add: valid_sets_def)

lemma valid_sets_length:
  "valid_sets py \<Longrightarrow> length (iterate py s) = card (set (iterate py s))"
  by (simp add: valid_sets_distinct distinct_card)

lemma valid_sets_add_length:
  assumes "valid_sets py" and "x \<notin> set (iterate py s)"
  shows "length (iterate py (set_add py x s)) = Suc (length (iterate py s))"
  using assms by (simp add: valid_sets_length valid_sets_add)

lemma valid_sets_copy_length:
  "valid_sets py \<Longrightarrow> length (iterate py (set_copy py s)) = length (iterate py s)"
  by (simp add: valid_sets_length valid_sets_copy)

lemma insertion_runtime_valid: "valid_sets insertion_runtime"
  by (auto simp: valid_sets_def insertion_runtime_def)


section \<open>The trivial goal\<close>

text \<open>
  C3.  On every valid runtime: when the goal is an element of the initial fact set,
  \<open>prove\<close> returns at once: no steps, \<open>goal_achieved\<close> and \<open>success\<close> true,
  \<open>iterations_used = 0\<close>; the final facts are the copy of the initial set and there is
  no error message.
\<close>

theorem trivial_goal:
  assumes "valid_sets py" and "goal \<in> set (iterate py initial_facts)"
  shows "prove py fc goal initial_facts rules =
           \<lparr>success = True, goal_achieved = True, steps = [],
            final_facts = set_copy py initial_facts,
            iterations_used = 0, error_message = None\<rparr>"
  using assms by (simp add: prove_def prove_outcome_def valid_sets_copy)

theorem trivial_goal_witness:
  "valid_sets insertion_runtime \<and>
   fact_eq_a_b \<in> set (iterate insertion_runtime [fact_eq_c_d, fact_eq_a_b]) \<and>
   prove insertion_runtime default_chainer fact_eq_a_b [fact_eq_c_d, fact_eq_a_b] [rule1] =
     \<lparr>success = True, goal_achieved = True, steps = [],
      final_facts = [fact_eq_c_d, fact_eq_a_b], iterations_used = 0, error_message = None\<rparr>"
proof -
  have m: "fact_eq_a_b \<in> set (iterate insertion_runtime [fact_eq_c_d, fact_eq_a_b])"
    by (simp add: insertion_runtime_def)
  have c: "set_copy insertion_runtime [fact_eq_c_d, fact_eq_a_b] = [fact_eq_c_d, fact_eq_a_b]"
    by (simp add: insertion_runtime_def)
  show ?thesis
    using insertion_runtime_valid m c
      trivial_goal [OF insertion_runtime_valid m, of default_chainer "[rule1]"]
    by simp
qed

section \<open>The shape of every result\<close>

text \<open>
  One induction per loop carries the iteration counter and the flags of the exits through
  \<open>new_facts_loop\<close>, \<open>rules_loop\<close> and \<open>main_loop\<close>, on every runtime.
\<close>

lemma create_proof_step_fields:
  "create_proof_step py r facts derived n = Inr step \<Longrightarrow>
     derived_fact step = derived \<and> rule_applied step = r \<and> step_number step = n"
  by (auto simp: create_proof_step_def split: list.splits sum.splits)

lemma record_step_fields:
  "current_facts (record_step py r step new_fact st) = set_add py new_fact (current_facts st)"
  "proof_steps (record_step py r step new_fact st) = proof_steps st @ [step]"
  "iterations (call_stats (record_step py r step new_fact st)) = iterations (call_stats st)"
  by (simp_all add: record_step_def)

lemma error_result_flow_inv:
  "iterations (call_stats st) = n \<Longrightarrow> flow_inv fc n (Return Error (error_result e st))"
  by (simp add: flow_inv_def error_result_def outcome_flags_def)

lemma new_facts_loop_inv:
  "iterations (call_stats st) = Suc iteration \<Longrightarrow>
     flow_inv fc (Suc iteration) (new_facts_loop py fc goal r iteration new_facts st)"
proof (induction new_facts arbitrary: st)
  case Nil
  then show ?case by (simp add: flow_inv_def)
next
  case (Cons new_fact rest)
  show ?case
  proof (cases "new_fact \<in> set (iterate py (current_facts st))")
    case True
    then show ?thesis using Cons by simp
  next
    case False
    show ?thesis
    proof (cases "create_proof_step py r (current_facts st) new_fact (length (proof_steps st) + 1)")
      case (Inl e)
      then show ?thesis using False Cons.prems error_result_flow_inv [of st "Suc iteration" fc e]
        by simp
    next
      case (Inr step)
      let ?st' = "record_step py r step new_fact st"
      have it: "iterations (call_stats ?st') = Suc iteration"
        using Cons.prems by (simp add: record_step_fields)
      have rest: "flow_inv fc (Suc iteration) (new_facts_loop py fc goal r iteration rest ?st')"
        using Cons.IH it by blast
      show ?thesis using False Inr rest
        by (simp add: Let_def flow_inv_def outcome_flags_def)
    qed
  qed
qed

lemma rules_loop_inv:
  "iterations (call_stats st) = Suc iteration \<Longrightarrow>
     flow_inv fc (Suc iteration) (rules_loop py fc goal iteration rules st)"
proof (induction rules arbitrary: st)
  case Nil
  then show ?case by (simp add: flow_inv_def)
next
  case (Cons r rs)
  show ?case
  proof (cases "can_apply_rule py r (current_facts st)")
    case False
    then show ?thesis using Cons by simp
  next
    case True
    show ?thesis
    proof (cases "apply_rule py r (current_facts st)")
      case (Inl e)
      then show ?thesis using True Cons.prems error_result_flow_inv [of st "Suc iteration" fc e]
        by simp
    next
      case (Inr new_facts)
      have fl: "flow_inv fc (Suc iteration) (new_facts_loop py fc goal r iteration new_facts st)"
        by (rule new_facts_loop_inv [OF Cons.prems])
      show ?thesis
      proof (cases "new_facts_loop py fc goal r iteration new_facts st")
        case (Continue st')
        then show ?thesis using True Inr fl Cons.IH [of st']
          by (simp add: flow_inv_def)
      next
        case (Return oc res)
        then show ?thesis using True Inr fl
          by (simp add: flow_inv_def)
      qed
    qed
  qed
qed

lemma main_loop_inv:
  "iterations (call_stats st) = iteration \<Longrightarrow>
   main_loop py left iteration fc goal rules st = (oc, res) \<Longrightarrow>
     iterations_used res \<le> iteration + left \<and> outcome_flags fc oc res"
proof (induction left arbitrary: iteration st)
  case 0
  then show ?case by (auto simp: no_proof_result_def outcome_flags_def)
next
  case (Suc left)
  let ?st1 = "st\<lparr>call_stats := (call_stats st)\<lparr>iterations := iteration + 1\<rparr>\<rparr>"
  have fl: "flow_inv fc (Suc iteration) (rules_loop py fc goal iteration rules ?st1)"
    using rules_loop_inv [of ?st1 iteration] by simp
  show ?case
  proof (cases "rules_loop py fc goal iteration rules ?st1")
    case (Return oc' res')
    then have "oc' = oc" "res' = res" using Suc.prems(2) by (simp_all add: Let_def)
    then show ?thesis using fl Return by (simp add: flow_inv_def)
  next
    case (Continue st2)
    then have it2: "iterations (call_stats st2) = Suc iteration"
      using fl by (simp add: flow_inv_def)
    show ?thesis
    proof (cases "length (iterate py (current_facts st2)) = length (iterate py (current_facts st))")
      case True
      then have "oc = Stuck" "res = no_proof_result st2"
        using Continue Suc.prems(2) by (simp_all add: Let_def)
      then show ?thesis using it2 by (simp add: no_proof_result_def outcome_flags_def)
    next
      case False
      then have "main_loop py left (Suc iteration) fc goal rules st2 = (oc, res)"
        using Continue Suc.prems(2) by (simp add: Let_def)
      then show ?thesis using Suc.IH [OF it2] by auto
    qed
  qed
qed

lemma prove_outcome_inv:
  assumes "prove_outcome py fc goal initial_facts rules = (oc, res)"
  shows "iterations_used res \<le> nat (max_iterations fc) \<and> outcome_flags fc oc res"
proof (cases "goal \<in> set (iterate py (set_copy py initial_facts))")
  case True
  then show ?thesis using assms
    by (auto simp: prove_outcome_def outcome_flags_def)
next
  case False
  let ?st = "\<lparr>current_facts = set_copy py initial_facts, proof_steps = [],
              call_stats = reset_statistics\<rparr>"
  have a: "iterations (call_stats ?st) = 0"
    by (simp add: reset_statistics_def)
  have b: "main_loop py (nat (max_iterations fc)) 0 fc goal rules ?st = (oc, res)"
    using False assms by (simp add: prove_outcome_def)
  show ?thesis using main_loop_inv [OF a b] by auto
qed

section \<open>Exhausted searches\<close>

text \<open>
  C2, as amended.  On every runtime: the exits Stuck and IterationLimit return a result
  with \<open>success = True\<close>, \<open>goal_achieved = False\<close> and no error message; the exit
  FactLimit returns a result with \<open>success = False\<close>, \<open>goal_achieved = False\<close> and the
  fact-limit message.  Each of them is a returned \<open>ProofResult\<close>, the value of
  \<open>prove\<close>.
\<close>

theorem exhaustion_outcomes:
  assumes "prove_outcome py fc goal initial_facts rules = (oc, res)"
  shows "prove py fc goal initial_facts rules = res \<and>
    (oc = Stuck \<or> oc = IterationLimit \<longrightarrow>
       success res \<and> \<not> goal_achieved res \<and> error_message res = None) \<and>
    (oc = FactLimit \<longrightarrow>
       \<not> success res \<and> \<not> goal_achieved res \<and>
       error_message res = Some (TooManyFacts (max_facts fc)))"
proof -
  have "outcome_flags fc oc res" using prove_outcome_inv [OF assms] by blast
  then show ?thesis using assms by (cases oc) (simp_all add: outcome_flags_def prove_def)
qed

theorem exhaustion_outcomes_witness:
  "fst (prove_outcome insertion_runtime default_chainer fact_positive_z [fact_eq_a_b] [rule1])
     = Stuck \<and>
   success (snd (prove_outcome insertion_runtime default_chainer fact_positive_z
                   [fact_eq_a_b] [rule1])) \<and>
   fst (prove_outcome insertion_runtime single_iteration_chainer fact_positive_z
          [fact_eq_a_b] [rule1]) = IterationLimit \<and>
   error_message (snd (prove_outcome insertion_runtime single_iteration_chainer fact_positive_z
                         [fact_eq_a_b] [rule1])) = None \<and>
   fst (prove_outcome insertion_runtime tight_chainer fact_positive_z [fact_eq_a_b] [rule1])
     = FactLimit \<and>
   error_message (snd (prove_outcome insertion_runtime tight_chainer fact_positive_z
                         [fact_eq_a_b] [rule1])) = Some (TooManyFacts 1)"
proof -
  have a: "fst (prove_outcome insertion_runtime default_chainer fact_positive_z
                  [fact_eq_a_b] [rule1]) = Stuck"
    by code_simp
  have b: "fst (prove_outcome insertion_runtime single_iteration_chainer fact_positive_z
                  [fact_eq_a_b] [rule1]) = IterationLimit"
    by code_simp
  have c: "fst (prove_outcome insertion_runtime tight_chainer fact_positive_z
                  [fact_eq_a_b] [rule1]) = FactLimit"
    by code_simp
  have m: "max_facts tight_chainer = 1"
    by (simp add: tight_chainer_def)
  show ?thesis
    using a b c m
      exhaustion_outcomes [OF prod.collapse [symmetric],
        of insertion_runtime default_chainer fact_positive_z "[fact_eq_a_b]" "[rule1]"]
      exhaustion_outcomes [OF prod.collapse [symmetric],
        of insertion_runtime single_iteration_chainer fact_positive_z "[fact_eq_a_b]" "[rule1]"]
      exhaustion_outcomes [OF prod.collapse [symmetric],
        of insertion_runtime tight_chainer fact_positive_z "[fact_eq_a_b]" "[rule1]"]
    by simp
qed

text \<open>
  The claim as it stands fails on the fact limit, which reports \<open>success = False\<close>, and
  on the reason: a stuck search carries no message.
\<close>

theorem exhaustion_success_counterexample:
  "fst (prove_outcome insertion_runtime tight_chainer fact_positive_z [fact_eq_a_b] [rule1])
     = FactLimit \<and>
   \<not> success (prove insertion_runtime tight_chainer fact_positive_z [fact_eq_a_b] [rule1]) \<and>
   fst (prove_outcome insertion_runtime default_chainer fact_positive_z [fact_eq_a_b] [rule1])
     = Stuck \<and>
   error_message (prove insertion_runtime default_chainer fact_positive_z [fact_eq_a_b] [rule1])
     = None"
  by code_simp

section \<open>The elements and the size of the working set\<close>

text \<open>
  On a valid runtime the working set holds the initial facts and the derived facts of the
  steps, and every loop leaves a set that contains the one it started from.
\<close>

lemma facts_inv_add:
  assumes v: "valid_sets py"
    and inv: "facts_inv py fc init facts taken 0"
    and new: "new_fact \<notin> set (iterate py facts)"
    and d: "derived_fact step = new_fact"
  shows "facts_inv py fc init (set_add py new_fact facts) (taken @ [step]) 1"
    and "int (length (iterate py (set_add py new_fact facts))) \<le> max_facts fc \<Longrightarrow>
           facts_inv py fc init (set_add py new_fact facts) (taken @ [step]) 0"
proof -
  have s: "set (iterate py (set_add py new_fact facts)) =
             set (iterate py init) \<union> derived_fact ` set (taken @ [step])"
    using inv d by (auto simp: facts_inv_def valid_sets_add [OF v])
  have l: "int (length (iterate py (set_add py new_fact facts))) =
             int (length (iterate py facts)) + 1"
    using valid_sets_add_length [OF v new] by simp
  have b: "int (length (iterate py facts)) \<le> fact_bound py fc init"
    using inv by (simp add: facts_inv_def)
  show "facts_inv py fc init (set_add py new_fact facts) (taken @ [step]) 1"
    unfolding facts_inv_def using s l b by simp
  show "facts_inv py fc init (set_add py new_fact facts) (taken @ [step]) 0"
    if "int (length (iterate py (set_add py new_fact facts))) \<le> max_facts fc"
    unfolding facts_inv_def using s that by (simp add: fact_bound_def)
qed

lemma facts_inv_slack:
  "facts_inv py fc init facts taken 0 \<Longrightarrow> facts_inv py fc init facts taken 1"
  by (simp add: facts_inv_def)

lemma new_facts_loop_facts:
  "valid_sets py \<Longrightarrow> facts_inv py fc init (current_facts st) (proof_steps st) 0 \<Longrightarrow>
     flow_facts_inv py fc init (new_facts_loop py fc goal r iteration new_facts st)"
proof (induction new_facts arbitrary: st)
  case Nil
  then show ?case by (simp add: flow_facts_inv_def)
next
  case (Cons new_fact rest)
  show ?case
  proof (cases "new_fact \<in> set (iterate py (current_facts st))")
    case True
    then show ?thesis using Cons by simp
  next
    case False
    show ?thesis
    proof (cases "create_proof_step py r (current_facts st) new_fact (length (proof_steps st) + 1)")
      case (Inl e)
      then show ?thesis using False facts_inv_slack [OF Cons.prems(2)]
        by (simp add: flow_facts_inv_def error_result_def)
    next
      case (Inr step)
      then have d: "derived_fact step = new_fact"
        by (simp add: create_proof_step_fields)
      let ?st' = "record_step py r step new_fact st"
      have one: "facts_inv py fc init (current_facts ?st') (proof_steps ?st') 1"
        using facts_inv_add(1) [OF Cons.prems(1) Cons.prems(2) False d]
        by (simp add: record_step_fields)
      show ?thesis
      proof (cases "new_fact = goal")
        case True
        then show ?thesis using False Inr one
          by (simp add: flow_facts_inv_def Let_def)
      next
        case ng: False
        show ?thesis
        proof (cases "int (length (iterate py (current_facts ?st'))) > max_facts fc")
          case True
          then show ?thesis using False Inr ng one
            by (simp add: flow_facts_inv_def Let_def)
        next
          case nl: False
          then have "int (length (iterate py (set_add py new_fact (current_facts st))))
                       \<le> max_facts fc"
            by (simp add: record_step_fields)
          then have "facts_inv py fc init (current_facts ?st') (proof_steps ?st') 0"
            using facts_inv_add(2) [OF Cons.prems(1) Cons.prems(2) False d]
            by (simp add: record_step_fields)
          then show ?thesis using False Inr ng nl Cons.IH [OF Cons.prems(1), of ?st']
            by (simp add: Let_def)
        qed
      qed
    qed
  qed
qed

lemma rules_loop_facts:
  "valid_sets py \<Longrightarrow> facts_inv py fc init (current_facts st) (proof_steps st) 0 \<Longrightarrow>
     flow_facts_inv py fc init (rules_loop py fc goal iteration rules st)"
proof (induction rules arbitrary: st)
  case Nil
  then show ?case by (simp add: flow_facts_inv_def)
next
  case (Cons r rs)
  show ?case
  proof (cases "can_apply_rule py r (current_facts st)")
    case False
    then show ?thesis using Cons by simp
  next
    case True
    show ?thesis
    proof (cases "apply_rule py r (current_facts st)")
      case (Inl e)
      then show ?thesis using True facts_inv_slack [OF Cons.prems(2)]
        by (simp add: flow_facts_inv_def error_result_def)
    next
      case (Inr new_facts)
      have fl: "flow_facts_inv py fc init (new_facts_loop py fc goal r iteration new_facts st)"
        by (rule new_facts_loop_facts [OF Cons.prems])
      show ?thesis
      proof (cases "new_facts_loop py fc goal r iteration new_facts st")
        case (Continue st')
        then show ?thesis using True Inr fl Cons.IH [OF Cons.prems(1), of st']
          by (simp add: flow_facts_inv_def)
      next
        case (Return oc res)
        then show ?thesis using True Inr fl
          by (simp add: flow_facts_inv_def)
      qed
    qed
  qed
qed

lemma main_loop_facts:
  "valid_sets py \<Longrightarrow> facts_inv py fc init (current_facts st) (proof_steps st) 0 \<Longrightarrow>
     facts_inv py fc init (final_facts (snd (main_loop py left iteration fc goal rules st)))
       (steps (snd (main_loop py left iteration fc goal rules st))) 1"
proof (induction left arbitrary: iteration st)
  case 0
  then show ?case using facts_inv_slack by (simp add: no_proof_result_def)
next
  case (Suc left)
  let ?st1 = "st\<lparr>call_stats := (call_stats st)\<lparr>iterations := iteration + 1\<rparr>\<rparr>"
  have "facts_inv py fc init (current_facts ?st1) (proof_steps ?st1) 0"
    using Suc.prems(2) by simp
  then have fl: "flow_facts_inv py fc init (rules_loop py fc goal iteration rules ?st1)"
    by (rule rules_loop_facts [OF Suc.prems(1)])
  show ?case
  proof (cases "rules_loop py fc goal iteration rules ?st1")
    case (Return oc res)
    then show ?thesis using fl by (simp add: flow_facts_inv_def Let_def)
  next
    case (Continue st2)
    then have inv2: "facts_inv py fc init (current_facts st2) (proof_steps st2) 0"
      using fl by (simp add: flow_facts_inv_def)
    show ?thesis
      using Continue Suc.IH [OF Suc.prems(1) inv2] facts_inv_slack [OF inv2]
      by (simp add: Let_def no_proof_result_def)
  qed
qed

lemma prove_facts:
  assumes v: "valid_sets py"
  shows "facts_inv py fc initial_facts (final_facts (prove py fc goal initial_facts rules))
           (steps (prove py fc goal initial_facts rules)) 1"
proof -
  let ?st = "\<lparr>current_facts = set_copy py initial_facts, proof_steps = [],
              call_stats = reset_statistics\<rparr>"
  have start: "facts_inv py fc initial_facts (current_facts ?st) (proof_steps ?st) 0"
    by (simp add: facts_inv_def fact_bound_def valid_sets_copy [OF v] valid_sets_copy_length [OF v])
  show ?thesis
  proof (cases "goal \<in> set (iterate py (set_copy py initial_facts))")
    case True
    then show ?thesis using facts_inv_slack [OF start]
      by (simp add: prove_def prove_outcome_def)
  next
    case False
    then show ?thesis using main_loop_facts [OF v start]
      by (simp add: prove_def prove_outcome_def)
  qed
qed

lemma new_facts_loop_grows:
  "valid_sets py \<Longrightarrow>
     set (iterate py (current_facts st))
       \<subseteq> set (iterate py (flow_facts (new_facts_loop py fc goal r iteration new_facts st)))"
proof (induction new_facts arbitrary: st)
  case Nil
  then show ?case by (simp add: flow_facts_def)
next
  case (Cons new_fact rest)
  show ?case
  proof (cases "new_fact \<in> set (iterate py (current_facts st))")
    case True
    then show ?thesis using Cons by simp
  next
    case False
    show ?thesis
    proof (cases "create_proof_step py r (current_facts st) new_fact (length (proof_steps st) + 1)")
      case (Inl e)
      then show ?thesis using False by (simp add: flow_facts_def error_result_def)
    next
      case (Inr step)
      let ?st' = "record_step py r step new_fact st"
      have p: "set (iterate py (current_facts st)) \<subseteq> set (iterate py (current_facts ?st'))"
        using valid_sets_add [OF Cons.prems] by (auto simp: record_step_fields)
      have "set (iterate py (current_facts ?st'))
              \<subseteq> set (iterate py (flow_facts (new_facts_loop py fc goal r iteration rest ?st')))"
        using Cons.IH Cons.prems by blast
      then have "set (iterate py (current_facts st))
              \<subseteq> set (iterate py (flow_facts (new_facts_loop py fc goal r iteration rest ?st')))"
        using p by blast
      then show ?thesis using False Inr p by (auto simp: Let_def flow_facts_def)
    qed
  qed
qed

lemma rules_loop_grows:
  "valid_sets py \<Longrightarrow>
     set (iterate py (current_facts st))
       \<subseteq> set (iterate py (flow_facts (rules_loop py fc goal iteration rules st)))"
proof (induction rules arbitrary: st)
  case Nil
  then show ?case by (simp add: flow_facts_def)
next
  case (Cons r rs)
  show ?case
  proof (cases "can_apply_rule py r (current_facts st)")
    case False
    then show ?thesis using Cons by simp
  next
    case True
    show ?thesis
    proof (cases "apply_rule py r (current_facts st)")
      case (Inl e)
      then show ?thesis using True by (simp add: flow_facts_def error_result_def)
    next
      case (Inr new_facts)
      have p: "set (iterate py (current_facts st))
         \<subseteq> set (iterate py (flow_facts (new_facts_loop py fc goal r iteration new_facts st)))"
        by (rule new_facts_loop_grows [OF Cons.prems])
      show ?thesis
      proof (cases "new_facts_loop py fc goal r iteration new_facts st")
        case (Continue st')
        then have "set (iterate py (current_facts st)) \<subseteq> set (iterate py (current_facts st'))"
          using p by (simp add: flow_facts_def)
        moreover have "set (iterate py (current_facts st'))
           \<subseteq> set (iterate py (flow_facts (rules_loop py fc goal iteration rs st')))"
          using Cons.IH Cons.prems by blast
        ultimately show ?thesis using True Inr Continue by auto
      next
        case (Return oc res)
        then show ?thesis using True Inr p by (simp add: flow_facts_def)
      qed
    qed
  qed
qed

lemma main_loop_grows:
  "valid_sets py \<Longrightarrow>
     set (iterate py (current_facts st))
       \<subseteq> set (iterate py (final_facts (snd (main_loop py left iteration fc goal rules st))))"
proof (induction left arbitrary: iteration st)
  case 0
  then show ?case by (simp add: no_proof_result_def)
next
  case (Suc left)
  let ?st1 = "st\<lparr>call_stats := (call_stats st)\<lparr>iterations := iteration + 1\<rparr>\<rparr>"
  have p: "set (iterate py (current_facts st))
     \<subseteq> set (iterate py (flow_facts (rules_loop py fc goal iteration rules ?st1)))"
    using rules_loop_grows [OF Suc.prems, of ?st1] by simp
  show ?case
  proof (cases "rules_loop py fc goal iteration rules ?st1")
    case (Return oc res)
    then show ?thesis using p by (simp add: flow_facts_def Let_def)
  next
    case (Continue st2)
    then have p2: "set (iterate py (current_facts st)) \<subseteq> set (iterate py (current_facts st2))"
      using p by (simp add: flow_facts_def)
    have "set (iterate py (current_facts st2))
       \<subseteq> set (iterate py (final_facts (snd (main_loop py left (iteration + 1) fc goal rules st2))))"
      using Suc.IH Suc.prems by blast
    then have "set (iterate py (current_facts st))
       \<subseteq> set (iterate py (final_facts (snd (main_loop py left (iteration + 1) fc goal rules st2))))"
      using p2 by blast
    then show ?thesis using Continue p2 by (simp add: Let_def no_proof_result_def)
  qed
qed

section \<open>Termination and the two limits\<close>

text \<open>
  The size of the working set is compared with \<open>max_facts\<close> in one place, right after
  an insertion (line 157).  A search without rules inserts nothing: on every runtime, and
  whatever the size of the initial set, it runs one iteration and ends stuck.
\<close>

lemma no_rules_any_runtime:
  assumes "goal \<notin> set (iterate py (set_copy py initial_facts))" and "0 < max_iterations fc"
  shows "prove_outcome py fc goal initial_facts [] =
           (Stuck,
            \<lparr>success = True, goal_achieved = False, steps = [],
             final_facts = set_copy py initial_facts, iterations_used = 1,
             error_message = None\<rparr>)"
proof -
  obtain k where k: "nat (max_iterations fc) = Suc k"
    using assms(2) by (cases "nat (max_iterations fc)") auto
  show ?thesis
    using assms(1) k
    by (simp add: prove_outcome_def Let_def no_proof_result_def reset_statistics_def)
qed









section \<open>Monotonicity of the working facts\<close>

text \<open>
  C5.  On every valid runtime the working facts only grow.  Each loop leaves a set that
  contains the set it started from, and the final facts of \<open>prove\<close> are the initial
  facts together with the derived fact of every step: every initial fact and every
  derived fact is among the final facts.
\<close>

theorem working_set_only_grows:
  assumes "valid_sets py"
  shows
  "set (iterate py (current_facts st))
     \<subseteq> set (iterate py (flow_facts (new_facts_loop py fc goal r iteration new_facts st))) \<and>
   set (iterate py (current_facts st))
     \<subseteq> set (iterate py (flow_facts (rules_loop py fc goal iteration rules st))) \<and>
   set (iterate py (current_facts st))
     \<subseteq> set (iterate py (final_facts (snd (main_loop py left iteration fc goal rules st)))) \<and>
   set (iterate py (final_facts (prove py fc goal initial_facts rules))) =
     set (iterate py initial_facts)
       \<union> derived_fact ` set (steps (prove py fc goal initial_facts rules))"
  using new_facts_loop_grows [OF assms] rules_loop_grows [OF assms] main_loop_grows [OF assms]
    prove_facts [OF assms, of fc initial_facts goal rules]
  by (simp add: facts_inv_def)

theorem working_set_only_grows_witness:
  "valid_sets insertion_runtime \<and>
   set (iterate insertion_runtime
          (final_facts (prove insertion_runtime default_chainer fact_positive_z
                          [fact_eq_a_b, fact_eq_c_d] [rule1]))) =
     set (iterate insertion_runtime [fact_eq_a_b, fact_eq_c_d])
       \<union> derived_fact ` set (steps (prove insertion_runtime default_chainer fact_positive_z
                                       [fact_eq_a_b, fact_eq_c_d] [rule1]))"
  using insertion_runtime_valid
    working_set_only_grows [OF insertion_runtime_valid,
      where fc = default_chainer and goal = fact_positive_z
        and initial_facts = "[fact_eq_a_b, fact_eq_c_d]" and rules = "[rule1]"]
  by simp

section \<open>Enumeration of the premise assignments\<close>










section \<open>Matching a variable\<close>

text \<open>
  C8, as amended.  A pattern variable is a variable whose name is upper-case (by
  \<^verbatim>\<open>str.isupper\<close>, for the character classes of the runtime) or begins with an
  underscore; every other variable is a ground variable.  On every runtime: an unbound
  pattern variable is bound to the target; a bound one matches exactly when its binding
  is the target, and the substitution is returned as it was (so a pattern variable that
  occurs twice needs the same target twice); a ground variable matches exactly the
  variable of the same name, and the substitution is returned as it was.
\<close>

theorem variable_matching:
  "(is_pattern_variable py n \<and> map_of sub n = None \<longrightarrow>
      match_expression_recursive py (Variable n) target sub = Some (sub @ [(n, target)]) \<and>
      map_of (sub @ [(n, target)]) n = Some target) \<and>
   (is_pattern_variable py n \<and> map_of sub n = Some bound \<longrightarrow>
      match_expression_recursive py (Variable n) target sub =
        (if bound = target then Some sub else None)) \<and>
   (\<not> is_pattern_variable py n \<longrightarrow>
      match_expression_recursive py (Variable n) target sub =
        (if target = Variable n then Some sub else None)) \<and>
   (is_pattern_variable py n \<longrightarrow>
      match_expression py (Variable n) target = Some [(n, target)] \<and>
      match_expression py (Operation (Variable n) operator (Variable n))
                          (Operation target operator target') =
        (if target = target' then Some [(n, target)] else None)) \<and>
   (\<not> is_pattern_variable py n \<longrightarrow>
      match_expression py (Variable n) target = (if target = Variable n then Some [] else None))"
  by (auto simp: map_add_def match_expression_def split: expr.splits)

theorem variable_matching_witness:
  "is_pattern_variable insertion_runtime (name_of ''X'') \<and>
   match_expression_recursive insertion_runtime (Variable (name_of ''X'')) (Number 5) []
     = Some [(name_of ''X'', Number 5)] \<and>
   match_expression_recursive insertion_runtime (Variable (name_of ''X'')) (Number 5)
       [(name_of ''X'', Number 5)]
     = Some [(name_of ''X'', Number 5)] \<and>
   match_expression_recursive insertion_runtime (Variable (name_of ''X'')) (Number 6)
       [(name_of ''X'', Number 5)] = None \<and>
   \<not> is_pattern_variable insertion_runtime (name_of ''x'') \<and>
   match_expression_recursive insertion_runtime (Variable (name_of ''x''))
       (Variable (name_of ''x'')) [] = Some [] \<and>
   match_expression_recursive insertion_runtime (Variable (name_of ''x'')) (Number 5) [] = None \<and>
   match_expression insertion_runtime
       (Operation (Variable (name_of ''X'')) ''*'' (Variable (name_of ''X'')))
       (Operation (Number 5) ''*'' (Number 6)) = None"
proof -
  have p: "is_pattern_variable insertion_runtime (name_of ''X'')" by code_simp
  have g: "\<not> is_pattern_variable insertion_runtime (name_of ''x'')" by code_simp
  show ?thesis
    using p g
      variable_matching [of insertion_runtime "name_of ''X''" "[]" "Number 5" "Number 5"]
      variable_matching [of insertion_runtime "name_of ''X''" "[(name_of ''X'', Number 5)]"
        "Number 5" "Number 5"]
      variable_matching [of insertion_runtime "name_of ''X''" "[(name_of ''X'', Number 5)]"
        "Number 5" "Number 6"]
      variable_matching [of insertion_runtime "name_of ''x''" "[]" "Number 5"
        "Variable (name_of ''x'')"]
      variable_matching [of insertion_runtime "name_of ''x''" "[]" "Number 5" "Number 5"]
      variable_matching [of insertion_runtime "name_of ''X''" "[]" "Number 5" "Number 5"
        "''*''" "Number 6"]
    by simp
qed

text \<open>
  A name that begins with an underscore binds on every runtime, whatever the case of its
  characters.
\<close>

lemma underscore_name_binds:
  "match_expression_recursive py (Variable (95 # rest)) target [] = Some [(95 # rest, target)]"
  by (simp add: is_pattern_variable_def startswith_underscore_def)

text \<open>
  The claim as it stands calls the lower-case names ground: \<^verbatim>\<open>_x\<close> is a lower-case
  name, and as a pattern it matches a number and binds.
\<close>

theorem lower_case_pattern_counterexample:
  "islower insertion_runtime (name_of ''_x'') \<and> \<not> isupper insertion_runtime (name_of ''_x'') \<and>
   match_expression_recursive insertion_runtime (Variable (name_of ''_x'')) (Number 5) []
     = Some [(name_of ''_x'', Number 5)]"
  by code_simp

section \<open>Construction errors\<close>

lemma wf_substitution_lookup:
  "wf_substitution m \<Longrightarrow> map_of m n = Some e \<Longrightarrow> wf_expr e"
  by (auto simp: wf_substitution_def list_all_iff dest: map_of_SomeD)

lemma wf_substitution_append:
  "wf_substitution (m @ [(n, e)]) = (wf_substitution m \<and> wf_expr e)"
  by (simp add: wf_substitution_def)

lemma apply_to_expression_wf:
  "wf_substitution m \<Longrightarrow> wf_expr e \<Longrightarrow>
     \<exists>e'. apply_to_expression m e = Inr e' \<and> wf_expr e'"
proof (induction e)
  case (Number v)
  then show ?case by simp
next
  case (Variable n)
  then show ?case by (auto split: option.splits dest: wf_substitution_lookup)
next
  case (Operation l operator r)
  then obtain l' r' where "apply_to_expression m l = Inr l'" "wf_expr l'"
    "apply_to_expression m r = Inr r'" "wf_expr r'"
    by auto
  then show ?case using Operation.prems by (simp add: mk_Operation_def)
qed

lemma apply_to_arguments_wf:
  "wf_substitution m \<Longrightarrow> list_all wf_expr args \<Longrightarrow>
     \<exists>args'. apply_to_arguments m args = Inr args' \<and> list_all wf_expr args' \<and>
             length args' = length args"
proof (induction args)
  case Nil
  then show ?case by simp
next
  case (Cons a as)
  then obtain a' where "apply_to_expression m a = Inr a'" "wf_expr a'"
    using apply_to_expression_wf by fastforce
  moreover obtain as' where "apply_to_arguments m as = Inr as'" "list_all wf_expr as'"
    "length as' = length as"
    using Cons by auto
  ultimately show ?case by simp
qed

lemma mk_Fact_length:
  "mk_Fact p args = Inr f \<Longrightarrow> length args' = length args \<Longrightarrow>
     mk_Fact p args' = Inr \<lparr>predicate = p, arguments = args'\<rparr>"
  by (auto simp: mk_Fact_def split: if_splits sum.splits)

lemma apply_to_fact_wf:
  assumes "wf_substitution m" and "wf_fact f"
  shows "\<exists>f'. apply_to_fact m f = Inr f' \<and> wf_fact f'"
proof -
  obtain args' where a: "apply_to_arguments m (arguments f) = Inr args'"
    "list_all wf_expr args'" "length args' = length (arguments f)"
    using apply_to_arguments_wf assms by (metis wf_fact_def)
  have "mk_Fact (predicate f) args' = Inr \<lparr>predicate = predicate f, arguments = args'\<rparr>"
    using mk_Fact_length a(3) assms(2) unfolding wf_fact_def by blast
  then show ?thesis using a by (simp add: apply_to_fact_def wf_fact_def)
qed

lemma match_expression_recursive_wf:
  "match_expression_recursive py p t sub = Some m \<Longrightarrow> wf_expr t \<Longrightarrow> wf_substitution sub \<Longrightarrow>
     wf_substitution m"
proof (induction p arbitrary: t sub m)
  case (Number v)
  then show ?case by (auto split: expr.splits if_splits)
next
  case (Variable n)
  then show ?case
    by (auto simp: wf_substitution_append split: expr.splits if_splits option.splits)
next
  case (Operation l operator r)
  then show ?case
    by (auto split: expr.splits if_splits option.splits)
qed

lemma merge_items_wf:
  "merge_items result items = Some m \<Longrightarrow> wf_substitution result \<Longrightarrow>
     wf_substitution items \<Longrightarrow> wf_substitution m"
proof (induction items arbitrary: result)
  case Nil
  then show ?case by simp
next
  case (Cons item rest)
  obtain var e where item: "item = (var, e)" by (cases item)
  from Cons.prems(3) item have wfe: "wf_expr e" and wfr: "wf_substitution rest"
    by (simp_all add: wf_substitution_def)
  show ?case
  proof (cases "map_of result var")
    case None
    then have "merge_items (result @ [(var, e)]) rest = Some m"
      using Cons.prems(1) item by (simp add: add_mapping_def)
    then show ?thesis
      using Cons.IH Cons.prems(2) wfe wfr wf_substitution_append by blast
  next
    case (Some e')
    then have "merge_items result rest = Some m"
      using Cons.prems(1) item by (simp add: add_mapping_def split: if_splits bool.splits)
    then show ?thesis using Cons.IH Cons.prems(2) wfr by blast
  qed
qed

lemma match_arguments_wf:
  "match_arguments py pairs sub = Some m \<Longrightarrow> list_all (\<lambda>(p, t). wf_expr t) pairs \<Longrightarrow>
     wf_substitution sub \<Longrightarrow> wf_substitution m"
proof (induction pairs arbitrary: sub)
  case Nil
  then show ?case by simp
next
  case (Cons pair rest)
  obtain p t where pair: "pair = (p, t)" by (cases pair)
  from Cons.prems(1) pair obtain am merged where
    am: "match_expression py p t = Some am" and mg: "merge sub am = Some merged"
    and rest: "match_arguments py rest merged = Some m"
    by (auto split: option.splits)
  have "wf_substitution am"
    using am Cons.prems(2) pair match_expression_recursive_wf [of py p t "[]" am]
    by (simp add: match_expression_def wf_substitution_def)
  then have "wf_substitution merged"
    using mg Cons.prems(3) merge_items_wf by (simp add: merge_def)
  then show ?case using Cons.IH rest Cons.prems(2) by simp
qed

lemma match_fact_wf:
  assumes "match_fact py pattern target = Some m" and "wf_fact target"
  shows "wf_substitution m"
proof -
  have m: "match_arguments py (zip (arguments pattern) (arguments target)) [] = Some m"
    using assms(1) by (simp add: match_fact_def split: if_splits)
  have "list_all wf_expr (arguments target)" using assms(2) by (simp add: wf_fact_def)
  then have "list_all (\<lambda>(p, t). wf_expr t) (zip (arguments pattern) (arguments target))"
    by (auto simp: list_all_iff dest: set_zip_rightD)
  then show ?thesis using match_arguments_wf [OF m] by (simp add: wf_substitution_def)
qed

lemma in_match_facts_list_single:
  "m \<in> set (match_facts_list py [p] targets) \<longleftrightarrow>
     (\<exists>target \<in> set (iterate py targets). match_fact py p target = Some m)"
  by (force split: option.splits)

lemma in_match_facts_list_more:
  "m \<in> set (match_facts_list py (p # q # qs) targets) \<longleftrightarrow>
     (\<exists>target \<in> set (iterate py targets). \<exists>first_match remaining_match.
        match_fact py p target = Some first_match \<and>
        remaining_match \<in> set (match_facts_list py (q # qs) (set_minus py targets target)) \<and>
        merge first_match remaining_match = Some m)"
  by (force split: option.splits)

lemma match_facts_list_wf:
  "m \<in> set (match_facts_list py patterns targets) \<Longrightarrow> valid_sets py \<Longrightarrow>
     list_all wf_fact (iterate py targets) \<Longrightarrow> wf_substitution m"
proof (induction py patterns targets arbitrary: m rule: match_facts_list.induct)
  case (1 py targets)
  then show ?case by (simp add: wf_substitution_def)
next
  case (2 py p targets)
  then obtain target where "target \<in> set (iterate py targets)" "match_fact py p target = Some m"
    using in_match_facts_list_single [of m py p targets] by blast
  then show ?case using "2.prems"(3) match_fact_wf [of py p target m] by (auto simp: list_all_iff)
next
  case (3 py first_pattern q qs targets)
  from "3.prems"(1) obtain target first_match remaining_match where
    t: "target \<in> set (iterate py targets)"
    and fm: "match_fact py first_pattern target = Some first_match"
    and rm: "remaining_match \<in> set (match_facts_list py (q # qs) (set_minus py targets target))"
    and mg: "merge first_match remaining_match = Some m"
    using in_match_facts_list_more [of m py first_pattern q qs targets] by blast
  have "wf_fact target" using t "3.prems"(3) by (simp add: list_all_iff)
  then have w1: "wf_substitution first_match" using fm match_fact_wf [of py] by blast
  have "list_all wf_fact (iterate py (set_minus py targets target))"
    using "3.prems"(3) valid_sets_minus [OF "3.prems"(2)] by (auto simp: list_all_iff)
  then have w2: "wf_substitution remaining_match"
    using "3.IH" [OF t fm rm "3.prems"(2)] by simp
  show ?case using merge_items_wf mg w1 w2 by (simp add: merge_def)
qed

lemma apply_rule_loop_wf:
  "list_all wf_substitution subs \<Longrightarrow> wf_fact concl \<Longrightarrow> list_all wf_fact acc \<Longrightarrow>
     \<exists>new_facts. apply_rule_loop py concl available subs acc = Inr new_facts \<and>
                 list_all wf_fact new_facts"
proof (induction subs arbitrary: acc)
  case Nil
  then show ?case by simp
next
  case (Cons s ss)
  then obtain nf where nf: "apply_to_fact s concl = Inr nf" "wf_fact nf"
    using apply_to_fact_wf by fastforce
  have "list_all wf_fact (if nf \<notin> set (iterate py available) then acc @ [nf] else acc)"
    using Cons.prems(3) nf(2) by simp
  then show ?case using Cons.IH Cons.prems nf by simp
qed

lemma find_rule_matches_wf:
  "valid_sets py \<Longrightarrow> list_all wf_fact (iterate py facts) \<Longrightarrow>
     list_all wf_substitution (find_rule_matches py patterns facts)"
  using match_facts_list_wf [of _ py patterns facts]
  by (auto simp: find_rule_matches_def list_all_iff)

lemma apply_rule_wf:
  assumes "valid_sets py" and "list_all wf_fact (iterate py facts)" and "wf_rule r"
  shows "\<exists>new_facts. apply_rule py r facts = Inr new_facts \<and> list_all wf_fact new_facts"
  unfolding apply_rule_def
  using apply_rule_loop_wf [OF find_rule_matches_wf [OF assms(1,2)], of "conclusion r" "[]"]
    assms(3)
  by (simp add: wf_rule_def)

lemma premises_used_loop_wf:
  "wf_substitution s \<Longrightarrow> list_all wf_fact patterns \<Longrightarrow>
     \<exists>used. premises_used_loop py s facts patterns = Inr used"
proof (induction patterns)
  case Nil
  then show ?case by simp
next
  case (Cons p ps)
  then obtain c where "apply_to_fact s p = Inr c"
    using apply_to_fact_wf by fastforce
  moreover obtain used where "premises_used_loop py s facts ps = Inr used"
    using Cons by auto
  ultimately show ?case by simp
qed

lemma create_proof_step_wf:
  assumes "valid_sets py" and "list_all wf_fact (iterate py facts)" and "wf_rule r"
  shows "\<exists>step. create_proof_step py r facts derived n = Inr step"
proof (cases "find_rule_matches py (rule_premises r) facts")
  case Nil
  then show ?thesis by (simp add: create_proof_step_def)
next
  case (Cons s ss)
  then have "wf_substitution s"
    using find_rule_matches_wf [OF assms(1,2), of "rule_premises r"] by simp
  then obtain used where "premises_used_loop py s facts (rule_premises r) = Inr used"
    using premises_used_loop_wf [of s "rule_premises r" py facts] assms(3)
    unfolding wf_rule_def by blast
  then show ?thesis using Cons by (simp add: create_proof_step_def)
qed

lemma new_facts_loop_wf:
  "valid_sets py \<Longrightarrow> list_all wf_fact (iterate py (current_facts st)) \<Longrightarrow>
   list_all wf_fact new_facts \<Longrightarrow> wf_rule r \<Longrightarrow>
     flow_wf py (new_facts_loop py fc goal r iteration new_facts st)"
proof (induction new_facts arbitrary: st)
  case Nil
  then show ?case by (simp add: flow_wf_def)
next
  case (Cons new_fact rest)
  show ?case
  proof (cases "new_fact \<in> set (iterate py (current_facts st))")
    case True
    then show ?thesis using Cons by simp
  next
    case False
    obtain step where step:
      "create_proof_step py r (current_facts st) new_fact (length (proof_steps st) + 1) = Inr step"
      using create_proof_step_wf [OF Cons.prems(1,2,4)] by blast
    let ?st' = "record_step py r step new_fact st"
    have "list_all wf_fact (iterate py (current_facts ?st'))"
      using Cons.prems(2,3) valid_sets_add [OF Cons.prems(1)]
      by (auto simp: record_step_fields list_all_iff)
    then have "flow_wf py (new_facts_loop py fc goal r iteration rest ?st')"
      using Cons.IH Cons.prems(1,3,4) by simp
    then show ?thesis using False step by (simp add: Let_def flow_wf_def)
  qed
qed

lemma rules_loop_wf:
  "valid_sets py \<Longrightarrow> list_all wf_fact (iterate py (current_facts st)) \<Longrightarrow>
   list_all wf_rule rules \<Longrightarrow>
     flow_wf py (rules_loop py fc goal iteration rules st)"
proof (induction rules arbitrary: st)
  case Nil
  then show ?case by (simp add: flow_wf_def)
next
  case (Cons r rs)
  show ?case
  proof (cases "can_apply_rule py r (current_facts st)")
    case False
    then show ?thesis using Cons by simp
  next
    case True
    have wr: "wf_rule r" using Cons.prems(3) by simp
    obtain new_facts where nf: "apply_rule py r (current_facts st) = Inr new_facts"
      "list_all wf_fact new_facts"
      using apply_rule_wf [OF Cons.prems(1,2) wr] by blast
    have fl: "flow_wf py (new_facts_loop py fc goal r iteration new_facts st)"
      by (rule new_facts_loop_wf [OF Cons.prems(1,2) nf(2) wr])
    show ?thesis
    proof (cases "new_facts_loop py fc goal r iteration new_facts st")
      case (Continue st')
      then show ?thesis using True nf(1) fl Cons.IH [of st'] Cons.prems(1,3)
        by (simp add: flow_wf_def)
    next
      case (Return oc res)
      then show ?thesis using True nf(1) fl by (simp add: flow_wf_def)
    qed
  qed
qed

lemma main_loop_wf:
  "valid_sets py \<Longrightarrow> list_all wf_fact (iterate py (current_facts st)) \<Longrightarrow>
   list_all wf_rule rules \<Longrightarrow>
     fst (main_loop py left iteration fc goal rules st) \<noteq> Error"
proof (induction left arbitrary: iteration st)
  case 0
  then show ?case by simp
next
  case (Suc left)
  let ?st1 = "st\<lparr>call_stats := (call_stats st)\<lparr>iterations := iteration + 1\<rparr>\<rparr>"
  have fl: "flow_wf py (rules_loop py fc goal iteration rules ?st1)"
    using rules_loop_wf [OF Suc.prems(1) _ Suc.prems(3), of ?st1] Suc.prems(2) by simp
  show ?case
  proof (cases "rules_loop py fc goal iteration rules ?st1")
    case (Return oc res)
    then show ?thesis using fl by (simp add: flow_wf_def Let_def)
  next
    case (Continue st2)
    then have "list_all wf_fact (iterate py (current_facts st2))"
      using fl by (simp add: flow_wf_def)
    then show ?thesis using Continue Suc.IH Suc.prems(1,3) by (simp add: Let_def)
  qed
qed

lemma prove_outcome_wf:
  "valid_sets py \<Longrightarrow> list_all wf_fact (iterate py initial_facts) \<Longrightarrow>
   list_all wf_rule rules \<Longrightarrow>
     fst (prove_outcome py fc goal initial_facts rules) \<noteq> Error"
  using main_loop_wf [of py _ rules] valid_sets_copy [of py initial_facts]
  by (simp add: prove_outcome_def Let_def list_all_iff)

text \<open>
  C9, as amended.  \<open>mk_Fact\<close> fails on a predicate outside the vocabulary and on an
  argument count other than the arity of the predicate (two for the relations, one for
  the properties); \<open>mk_Operation\<close> fails on an operator outside
  \<^verbatim>\<open>+ - * / ^ **\<close>.  On every valid runtime, a search over well-formed initial
  facts and rules never leaves through the exception handler: no construction error is
  raised while it runs.
\<close>

theorem construction_time_validation:
  "(p \<notin> set VALID_PREDICATES \<longrightarrow> mk_Fact p args = Inl (InvalidPredicate p)) \<and>
   (p \<in> set [''eq'', ''gt'', ''lt'', ''gte'', ''lte'', ''divides'', ''multiple''] \<and>
      length args \<noteq> 2 \<longrightarrow> mk_Fact p args = Inl (WrongArgCount p 2 (length args))) \<and>
   (p \<in> set [''even'', ''odd'', ''prime'', ''positive'', ''negative''] \<and>
      length args \<noteq> 1 \<longrightarrow> mk_Fact p args = Inl (WrongArgCount p 1 (length args))) \<and>
   (operator \<notin> set [''+'', ''-'', ''*'', ''/'', ''^'', ''**''] \<longrightarrow>
      mk_Operation l operator r = Inl (InvalidOperator operator)) \<and>
   (valid_sets py \<and> list_all wf_fact (iterate py initial_facts) \<and> list_all wf_rule rules \<longrightarrow>
      fst (prove_outcome py fc goal initial_facts rules) \<noteq> Error \<and>
      error_message (prove py fc goal initial_facts rules) \<noteq> Some (ExceptionText e))"
proof -
  have a: "p \<notin> set VALID_PREDICATES \<longrightarrow> mk_Fact p args = Inl (InvalidPredicate p)"
    by (simp add: mk_Fact_def)
  have b: "p \<in> set [''eq'', ''gt'', ''lt'', ''gte'', ''lte'', ''divides'', ''multiple''] \<and>
      length args \<noteq> 2 \<longrightarrow> mk_Fact p args = Inl (WrongArgCount p 2 (length args))"
    by (auto simp: mk_Fact_def VALID_PREDICATES_def get_expected_arg_count_def)
  have c: "p \<in> set [''even'', ''odd'', ''prime'', ''positive'', ''negative''] \<and>
      length args \<noteq> 1 \<longrightarrow> mk_Fact p args = Inl (WrongArgCount p 1 (length args))"
    by (auto simp: mk_Fact_def VALID_PREDICATES_def get_expected_arg_count_def)
  have d: "operator \<notin> set [''+'', ''-'', ''*'', ''/'', ''^'', ''**''] \<longrightarrow>
      mk_Operation l operator r = Inl (InvalidOperator operator)"
    by (simp add: mk_Operation_def VALID_OPERATORS_def)
  have e: "fst (prove_outcome py fc goal initial_facts rules) \<noteq> Error \<and>
      error_message (prove py fc goal initial_facts rules) \<noteq> Some (ExceptionText e)"
    if wf: "valid_sets py \<and> list_all wf_fact (iterate py initial_facts) \<and> list_all wf_rule rules"
  proof -
    obtain oc res where pr: "prove_outcome py fc goal initial_facts rules = (oc, res)"
      by (cases "prove_outcome py fc goal initial_facts rules")
    have ne: "oc \<noteq> Error"
      using prove_outcome_wf [of py initial_facts rules fc goal] wf pr by simp
    have "outcome_flags fc oc res" using prove_outcome_inv [OF pr] by blast
    then have "error_message res \<noteq> Some (ExceptionText e)"
      using ne by (cases oc) (simp_all add: outcome_flags_def)
    then show ?thesis using ne pr by (simp add: prove_def)
  qed
  show ?thesis using a b c d e by blast
qed

theorem construction_time_validation_witness:
  "mk_Fact ''neq'' [Variable (name_of ''a''), Number 0] = Inl (InvalidPredicate ''neq'') \<and>
   mk_Fact ''eq'' [Variable (name_of ''a'')] = Inl (WrongArgCount ''eq'' 2 1) \<and>
   mk_Fact ''even'' [Variable (name_of ''a''), Number 0] = Inl (WrongArgCount ''even'' 1 2) \<and>
   mk_Operation (Variable (name_of ''a'')) ''%'' (Number 2) = Inl (InvalidOperator ''%'') \<and>
   valid_sets insertion_runtime \<and>
   list_all wf_fact (iterate insertion_runtime [fact_eq_a_b]) \<and>
   list_all wf_rule [rule1, rule2] \<and>
   fst (prove_outcome insertion_runtime default_chainer fact_positive_a [fact_eq_a_b]
          [rule1, rule2]) \<noteq> Error"
proof -
  have a: "''neq'' \<notin> set VALID_PREDICATES" by code_simp
  have b: "length [Variable (name_of ''a'')] \<noteq> 2"
    "length [Variable (name_of ''a''), Number 0] \<noteq> 1" by simp_all
  have c: "''%'' \<notin> set [''+'', ''-'', ''*'', ''/'', ''^'', ''**'']" by simp
  have d: "list_all wf_fact (iterate insertion_runtime [fact_eq_a_b])" by code_simp
  have e: "list_all wf_rule [rule1, rule2]" by code_simp
  show ?thesis
    using a b c d e insertion_runtime_valid
      construction_time_validation [of "''neq''" "[Variable (name_of ''a''), Number 0]" "''%''"
        "Variable (name_of ''a'')" "Number 2" insertion_runtime "[fact_eq_a_b]" "[rule1, rule2]"
        default_chainer fact_positive_a "InvalidOperator ''%''"]
      construction_time_validation [of "''eq''" "[Variable (name_of ''a'')]" "''%''"
        "Variable (name_of ''a'')" "Number 2" insertion_runtime "[fact_eq_a_b]" "[rule1, rule2]"
        default_chainer fact_positive_a "InvalidOperator ''%''"]
      construction_time_validation [of "''even''" "[Variable (name_of ''a''), Number 0]" "''%''"
        "Variable (name_of ''a'')" "Number 2" insertion_runtime "[fact_eq_a_b]" "[rule1, rule2]"
        default_chainer fact_positive_a "InvalidOperator ''%''"]
    by simp
qed

text \<open>
  The claim as it stands names five operators; the sixth, \<^verbatim>\<open>**\<close>, lies outside
  them and is accepted.
\<close>

theorem power_operator_counterexample:
  "''**'' \<notin> set [''+'', ''-'', ''*'', ''/'', ''^''] \<and>
   mk_Operation (Number 2) ''**'' (Number 3) = Inr (Operation (Number 2) ''**'' (Number 3))"
  by (simp add: mk_Operation_def VALID_OPERATORS_def)

section \<open>Enabling and disabling rules\<close>

text \<open>
  C10.  In a rule system whose active names are catalog names (a new rule system is one,
  and enabling or disabling a catalog name keeps it one): for a name of the catalog,
  \<open>enable_rule\<close> adds it to the active set and \<open>disable_rule\<close> removes it, and the
  status of every other name stays as it was; for a name that is not in the catalog,
  \<open>enable_rule\<close> raises and leaves the system as it was, while \<open>disable_rule\<close> returns
  normally and leaves the system as it was.
\<close>

theorem rule_toggling:
  assumes "active_rules rs \<subseteq> set (list_rule_names rs)"
  shows "if rule_name \<in> set (list_rule_names rs) then
           enable_rule rule_name rs =
             (Inr (), rs\<lparr>active_rules := insert rule_name (active_rules rs)\<rparr>) \<and>
           disable_rule rule_name rs =
             (Inr (), rs\<lparr>active_rules := active_rules rs - {rule_name}\<rparr>) \<and>
           is_rule_active rule_name (snd (enable_rule rule_name rs)) \<and>
           \<not> is_rule_active rule_name (snd (disable_rule rule_name rs)) \<and>
           (other = rule_name \<or>
              is_rule_active other (snd (enable_rule rule_name rs)) = is_rule_active other rs \<and>
              is_rule_active other (snd (disable_rule rule_name rs)) = is_rule_active other rs) \<and>
           active_rules (snd (enable_rule rule_name rs))
             \<subseteq> set (list_rule_names (snd (enable_rule rule_name rs))) \<and>
           active_rules (snd (disable_rule rule_name rs))
             \<subseteq> set (list_rule_names (snd (disable_rule rule_name rs)))
         else
           enable_rule rule_name rs = (Inl (UnknownRule rule_name), rs) \<and>
           disable_rule rule_name rs = (Inr (), rs)"
proof (cases "rule_name \<in> set (list_rule_names rs)")
  case True
  then show ?thesis using assms
    by (auto simp: enable_rule_def disable_rule_def is_rule_active_def)
next
  case False
  then have "rule_name \<notin> active_rules rs" using assms by blast
  then have "active_rules rs - {rule_name} = active_rules rs" by blast
  then show ?thesis using False
    by (simp add: enable_rule_def disable_rule_def)
qed

theorem rule_toggling_witness:
  "active_rules new_RuleSystem \<subseteq> set (list_rule_names new_RuleSystem) \<and>
   enable_rule ''nonexistent_rule'' new_RuleSystem
     = (Inl (UnknownRule ''nonexistent_rule''), new_RuleSystem) \<and>
   disable_rule ''nonexistent_rule'' new_RuleSystem = (Inr (), new_RuleSystem) \<and>
   \<not> is_rule_active ''subtraction_property''
       (snd (disable_rule ''subtraction_property'' new_RuleSystem)) \<and>
   is_rule_active ''division_property''
       (snd (disable_rule ''subtraction_property'' new_RuleSystem))"
proof -
  have inv: "active_rules new_RuleSystem \<subseteq> set (list_rule_names new_RuleSystem)"
    by (simp add: new_RuleSystem_def)
  have unknown: "''nonexistent_rule'' \<notin> set (list_rule_names new_RuleSystem)"
    by (simp add: new_RuleSystem_def catalog_rule_names_def)
  have known: "''subtraction_property'' \<in> set (list_rule_names new_RuleSystem)"
    by (simp add: new_RuleSystem_def catalog_rule_names_def)
  have other: "is_rule_active ''division_property'' new_RuleSystem"
    by (simp add: is_rule_active_def new_RuleSystem_def catalog_rule_names_def)
  show ?thesis
    using inv unknown known other
      rule_toggling [OF inv, of "''nonexistent_rule''" "''division_property''"]
      rule_toggling [OF inv, of "''subtraction_property''" "''division_property''"]
    by auto
qed

section \<open>Provenance of a proof step\<close>

text \<open>
  C1.  \<open>create_proof_step\<close> takes the first match of the premises in the working facts,
  whichever match produced the derived fact.  With the facts \<^verbatim>\<open>eq(a, b)\<close> and
  \<^verbatim>\<open>eq(c, d)\<close> and the rule \<^verbatim>\<open>eq(X, Y) \<rightarrow> gt(X, 0)\<close>, the second step derives
  \<^verbatim>\<open>gt(c, 0)\<close> and lists \<^verbatim>\<open>eq(a, b)\<close> as its premise: the substitution recorded
  for the step sends the conclusion to \<^verbatim>\<open>gt(a, 0)\<close>, not to the derived fact.
\<close>

theorem proof_step_premises_of_first_match:
  "steps (prove insertion_runtime default_chainer fact_positive_z
            [fact_eq_a_b, fact_eq_c_d] [rule1]) =
     [\<lparr>rule_applied = rule1, premises_used = [fact_eq_a_b],
       derived_fact = fact_gt_a_0, step_number = 1\<rparr>,
      \<lparr>rule_applied = rule1, premises_used = [fact_eq_a_b],
       derived_fact = fact_gt_c_0, step_number = 2\<rparr>] \<and>
   find_rule_matches insertion_runtime (rule_premises rule1)
       [fact_eq_a_b, fact_eq_c_d, fact_gt_a_0] =
     [[(name_of ''X'', Variable (name_of ''a'')), (name_of ''Y'', Variable (name_of ''b''))],
      [(name_of ''X'', Variable (name_of ''c'')), (name_of ''Y'', Variable (name_of ''d''))]] \<and>
   apply_to_fact
       [(name_of ''X'', Variable (name_of ''a'')), (name_of ''Y'', Variable (name_of ''b''))]
       (conclusion rule1)
     = Inr fact_gt_a_0 \<and>
   fact_gt_a_0 \<noteq> fact_gt_c_0"
  by code_simp

section \<open>Determinism\<close>


























end
